theory Spec2Isabelle
  imports Complex_Main "HOL-Library.Word" "HOL-Library.Multiset"
begin

unbundle bit_operations_syntax

section \<open>Diffraxia: Eiger frame decoding and radial integration\<close>

text \<open>
  A shallow embedding of \<^verbatim>\<open>src/diffraxia/eiger.py\<close> and
  \<^verbatim>\<open>src/diffraxia/integrate.py\<close>. Exceptions are values of the type
  \<open>error\<close>; the external decompression service is a function parameter.
\<close>

subsection \<open>The HDF5 container\<close>

type_synonym bytes = "8 word list"
type_synonym u32 = "32 word"

text \<open>
  The value of a dataset, of the kinds the Eiger layout uses: an opaque byte buffer, a
  64-bit integer scalar, a one-dimensional array of 64-bit integers, a byte string.
\<close>

datatype dval =
    DBytes bytes
  | DInt "64 word"
  | DIntArr "64 word list"
  | DStr string

text \<open>
  A node is a dataset or a group; a group is the list of its members (name, node) in the
  order of \<^verbatim>\<open>group.keys()\<close>. \<^verbatim>\<open>name in group\<close> and \<^verbatim>\<open>group[name]\<close> are
  modelled for direct member names.
\<close>

datatype node =
    Dataset dval
  | Group "(string \<times> node) list"

type_synonym group = "(string \<times> node) list"

definition keys :: "group \<Rightarrow> string list" where
  "keys g = map fst g"

definition contains :: "group \<Rightarrow> string \<Rightarrow> bool" where
  "contains g name = (name \<in> set (keys g))"

definition getitem :: "group \<Rightarrow> string \<Rightarrow> node option" where
  "getitem g name = map_of g name"

subsection \<open>Errors\<close>

text \<open>
  One constructor for each place where the code raises. Each carries the values that the
  message of the exception is formatted from.
\<close>

datatype error =
    LayoutError "string list"
      \<comment> \<open>RuntimeError of \<^verbatim>\<open>_select_payload_group\<close>: the keys of the frame group\<close>
  | ElemSizeError int int string
      \<comment> \<open>RuntimeError of the elem\_size check: elem\_size, expected item size, dtype label\<close>
  | DecodedSizeError int int "int list" string
      \<comment> \<open>RuntimeError of the size check: len(buf), expected byte count, shape, dtype used\<close>
  | BufferSizeError nat
      \<comment> \<open>ValueError of \<^verbatim>\<open>np.frombuffer\<close>: buffer size not a multiple of the item size\<close>
  | ReshapeError nat "int list"
      \<comment> \<open>ValueError of \<^verbatim>\<open>ndarray.reshape\<close>: array size, requested shape\<close>
  | DecompressError
      \<comment> \<open>whatever the external decompression service raises\<close>
  | UnsupportedField string
      \<comment> \<open>a payload field that is not a dataset of the kind the layout prescribes\<close>
  | NotAGroup
      \<comment> \<open>a dataset where the code goes on as if it had a group\<close>
  | GroupNotFound string
      \<comment> \<open>RuntimeError of \<^verbatim>\<open>eiger_to_tiff\<close>: the group name\<close>
  | KeyValueError string
      \<comment> \<open>ValueError of \<^verbatim>\<open>int(k)\<close>: the key\<close>
  | MaskIndexError nat nat
      \<comment> \<open>IndexError of boolean-mask indexing: size of the array, size of the mask\<close>
  | WeightsShapeError
      \<comment> \<open>ValueError of \<^verbatim>\<open>np.histogram\<close>: weights and samples differ in shape\<close>
  | BinsNotMonotonic
      \<comment> \<open>ValueError of \<^verbatim>\<open>np.histogram\<close>: the bin edges decrease somewhere\<close>

subsection \<open>Payload locator\<close>

definition REQUIRED_KEYS :: "string list" where
  "REQUIRED_KEYS = [''data'', ''shape'', ''dtype'', ''elem_size'', ''compression_type'']"

definition has_required_keys :: "group \<Rightarrow> bool" where
  "has_required_keys g = list_all (\<lambda>key. contains g key) REQUIRED_KEYS"

text \<open>
  \<^verbatim>\<open>_select_payload_group\<close>: the \<^verbatim>\<open>difference\<close> subgroup first (case 1), the frame
  group itself second (case 2), a RuntimeError listing the keys of the frame group
  otherwise.
\<close>

definition flattened_layout :: "group \<Rightarrow> error + group" where
  "flattened_layout frame_group =
     (if has_required_keys frame_group then Inr frame_group
      else Inl (LayoutError (keys frame_group)))"

definition select_payload_group :: "group \<Rightarrow> error + group" where
  "select_payload_group frame_group =
     (case (if contains frame_group ''difference''
            then getitem frame_group ''difference'' else None) of
        Some (Group diff) \<Rightarrow>
          if has_required_keys diff then Inr diff else flattened_layout frame_group
      | _ \<Rightarrow> flattened_layout frame_group)"

subsection \<open>Reading the payload fields\<close>

text \<open>
  The values \<^verbatim>\<open>get_frame_array\<close> reads from the payload group, in the order it reads
  them. A field that is missing or is not a dataset of the kind the layout prescribes is
  outside the model: h5py and NumPy raise or coerce such values case by case, the model
  answers \<open>UnsupportedField\<close>, and no statement below is about such a file.
\<close>

record payload =
  raw_data :: bytes
  shape_meta :: "int list"
  dtype_meta :: string
  elem_size :: int
  compression_type :: string

text \<open>
  \<^verbatim>\<open>_read_shape\<close>: \<^verbatim>\<open>np.atleast_1d\<close> turns a scalar into an array of one element,
  and every element becomes a Python int.
\<close>

fun read_shape :: "dval \<Rightarrow> error + int list" where
  "read_shape (DInt x) = Inr [sint x]"
| "read_shape (DIntArr xs) = Inr (map sint xs)"
| "read_shape _ = Inl (UnsupportedField ''shape'')"

text \<open>
  \<^verbatim>\<open>_read_scalar\<close> on a byte string: \<^verbatim>\<open>value.decode("ascii", errors="ignore")\<close> drops
  the bytes that are not ASCII.
\<close>

definition decode_ascii_ignore :: "string \<Rightarrow> string" where
  "decode_ascii_ignore s = filter (\<lambda>c. (of_char c :: nat) < 128) s"

definition read_payload :: "group \<Rightarrow> error + payload" where
  "read_payload p =
     (case getitem p ''data'' of
        Some (Dataset (DBytes raw)) \<Rightarrow>
          (case getitem p ''shape'' of
             Some (Dataset sv) \<Rightarrow>
               (case read_shape sv of
                  Inl e \<Rightarrow> Inl e
                | Inr shp \<Rightarrow>
                    (case getitem p ''dtype'' of
                       Some (Dataset (DStr dt)) \<Rightarrow>
                         (case getitem p ''elem_size'' of
                            Some (Dataset (DInt es)) \<Rightarrow>
                              (case getitem p ''compression_type'' of
                                 Some (Dataset (DStr ct)) \<Rightarrow>
                                   Inr \<lparr>raw_data = raw, shape_meta = shp,
                                        dtype_meta = decode_ascii_ignore dt,
                                        elem_size = sint es,
                                        compression_type = decode_ascii_ignore ct\<rparr>
                               | _ \<Rightarrow> Inl (UnsupportedField ''compression_type''))
                          | _ \<Rightarrow> Inl (UnsupportedField ''elem_size''))
                     | _ \<Rightarrow> Inl (UnsupportedField ''dtype'')))
           | _ \<Rightarrow> Inl (UnsupportedField ''shape''))
      | _ \<Rightarrow> Inl (UnsupportedField ''data''))"

subsection \<open>NumPy arrays\<close>

text \<open>
  An array is its shape and its elements in row-major order (the order of
  \<^verbatim>\<open>ravel()\<close> of a C-contiguous array).
\<close>

record 'a ndarray =
  shape :: "int list"
  data :: "'a list"

text \<open>
  \<^verbatim>\<open>np.prod\<close> of a tuple of Python ints that fit 64 bits multiplies in int64 and wraps
  around silently; the empty product is 1.
\<close>

definition wrap_int64 :: "int \<Rightarrow> int" where
  "wrap_int64 x = (x + 2 ^ 63) mod 2 ^ 64 - 2 ^ 63"

definition np_prod :: "int list \<Rightarrow> int" where
  "np_prod shp = wrap_int64 (prod_list shp)"

text \<open>
  \<^verbatim>\<open>np.frombuffer(buf, dtype=uint32)\<close>: four bytes per element, least significant byte
  first (the native byte order of the machines the package runs on).
\<close>

definition le_u32 :: "8 word \<Rightarrow> 8 word \<Rightarrow> 8 word \<Rightarrow> 8 word \<Rightarrow> u32" where
  "le_u32 b0 b1 b2 b3 =
     ucast b0 OR push_bit 8 (ucast b1) OR push_bit 16 (ucast b2) OR push_bit 24 (ucast b3)"

fun u32_words :: "bytes \<Rightarrow> u32 list" where
  "u32_words (b0 # b1 # b2 # b3 # rest) = le_u32 b0 b1 b2 b3 # u32_words rest"
| "u32_words _ = []"

definition np_frombuffer_u32 :: "bytes \<Rightarrow> error + u32 list" where
  "np_frombuffer_u32 buf =
     (if length buf mod 4 \<noteq> 0 then Inl (BufferSizeError (length buf))
      else Inr (u32_words buf))"

text \<open>
  \<^verbatim>\<open>ndarray.reshape(newshape)\<close>. NumPy multiplies the non-negative dimensions with an
  overflow check, takes a negative dimension as the one unknown dimension and infers it,
  and raises ValueError when the sizes disagree. \<open>NPY_MAXDIMS\<close> is 64 (32 before
  NumPy 2).
\<close>

definition NPY_MAX_INTP :: int where
  "NPY_MAX_INTP = 2 ^ 63 - 1"

definition NPY_MAXDIMS :: nat where
  "NPY_MAXDIMS = 64"

fun known_size :: "int \<Rightarrow> int list \<Rightarrow> int option" where
  "known_size s [] = Some s"
| "known_size s (d # ds) =
     (if d < 0 then known_size s ds
      else if s * d > NPY_MAX_INTP then None
      else known_size (s * d) ds)"

definition np_reshape :: "'a list \<Rightarrow> int list \<Rightarrow> error + 'a ndarray" where
  "np_reshape xs newshape =
     (let n = int (length xs) in
      if length newshape > NPY_MAXDIMS then Inl (ReshapeError (length xs) newshape)
      else if length (filter (\<lambda>d. d < 0) newshape) > 1
        then Inl (ReshapeError (length xs) newshape)
      else
        (case known_size 1 newshape of
           None \<Rightarrow> Inl (ReshapeError (length xs) newshape)
         | Some s_known \<Rightarrow>
             if list_ex (\<lambda>d. d < 0) newshape then
               (if s_known = 0 \<or> n mod s_known \<noteq> 0
                  then Inl (ReshapeError (length xs) newshape)
                else Inr \<lparr>shape = map (\<lambda>d. if d < 0 then n div s_known else d) newshape,
                          data = xs\<rparr>)
             else if n \<noteq> s_known then Inl (ReshapeError (length xs) newshape)
             else Inr \<lparr>shape = newshape, data = xs\<rparr>))"

subsection \<open>Frame decoder\<close>

text \<open>
  The external decompression service, \<^verbatim>\<open>dectris.compression.decompress\<close>: compressed
  bytes, compression type and element size to the decompressed buffer, or \<open>None\<close> when
  it raises.
\<close>

type_synonym decompressor = "bytes \<Rightarrow> string \<Rightarrow> int \<Rightarrow> bytes option"

definition uint32_itemsize :: int where
  "uint32_itemsize = 4"

definition uint32_name :: string where
  "uint32_name = ''uint32''"

text \<open>
  \<^verbatim>\<open>get_frame_array\<close> from the elem\_size check on: the check, the decompression, the
  size check, \<^verbatim>\<open>np.frombuffer(buf, dtype=dtype_np).reshape(shape)\<close>.
\<close>

definition decode_payload :: "decompressor \<Rightarrow> payload \<Rightarrow> error + u32 ndarray" where
  "decode_payload decompress p =
     (if elem_size p \<noteq> uint32_itemsize
        then Inl (ElemSizeError (elem_size p) uint32_itemsize (dtype_meta p))
      else
        (case decompress (raw_data p) (compression_type p) (elem_size p) of
           None \<Rightarrow> Inl DecompressError
         | Some buf \<Rightarrow>
             (let expected_nbytes = np_prod (shape_meta p) * uint32_itemsize in
              if int (length buf) \<noteq> expected_nbytes
                then Inl (DecodedSizeError (int (length buf)) expected_nbytes
                            (shape_meta p) uint32_name)
              else
                (case np_frombuffer_u32 buf of
                   Inl e \<Rightarrow> Inl e
                 | Inr arr \<Rightarrow> np_reshape arr (shape_meta p)))))"

text \<open>
  \<^verbatim>\<open>get_frame_array\<close> on the node \<^verbatim>\<open>group[k]\<close>. On a dataset the membership tests of the
  payload locator raise.
\<close>

fun get_frame_array :: "decompressor \<Rightarrow> node \<Rightarrow> error + u32 ndarray" where
  "get_frame_array decompress (Dataset v) = Inl NotAGroup"
| "get_frame_array decompress (Group frame_group) =
     (case select_payload_group frame_group of
        Inl e \<Rightarrow> Inl e
      | Inr p \<Rightarrow>
          (case read_payload p of
             Inl e \<Rightarrow> Inl e
           | Inr rec \<Rightarrow> decode_payload decompress rec))"

subsection \<open>Batch converter\<close>

text \<open>
  \<^verbatim>\<open>int(k)\<close> on a string of 8-bit characters: surrounding whitespace is stripped, one
  sign is allowed, the digits may be separated by single underscores, and CPython (3.11,
  and the security releases of 3.7 to 3.10) refuses a string of more than 4300 digits.
  \<open>None\<close> is the ValueError.
\<close>

definition MAX_STR_DIGITS :: nat where
  "MAX_STR_DIGITS = 4300"

definition is_digit :: "char \<Rightarrow> bool" where
  "is_digit c = (48 \<le> (of_char c :: nat) \<and> (of_char c :: nat) \<le> 57)"

definition digit_val :: "char \<Rightarrow> int" where
  "digit_val c = int (of_char c) - 48"

definition py_isspace :: "char \<Rightarrow> bool" where
  "py_isspace c = ((of_char c :: nat) \<in> {9, 10, 11, 12, 13, 28, 29, 30, 31, 32, 133, 160})"

definition py_strip :: "string \<Rightarrow> string" where
  "py_strip s = rev (dropWhile py_isspace (rev (dropWhile py_isspace s)))"

fun parse_digits :: "int \<Rightarrow> string \<Rightarrow> int option" where
  "parse_digits acc [] = Some acc"
| "parse_digits acc [c] = (if is_digit c then Some (10 * acc + digit_val c) else None)"
| "parse_digits acc (c # d # cs) =
     (if is_digit c then parse_digits (10 * acc + digit_val c) (d # cs)
      else if c = CHR ''_'' \<and> is_digit d then parse_digits (10 * acc + digit_val d) cs
      else None)"

definition parse_unsigned :: "string \<Rightarrow> int option" where
  "parse_unsigned s =
     (if length (filter is_digit s) > MAX_STR_DIGITS then None
      else
        (case s of
           [] \<Rightarrow> None
         | c # cs \<Rightarrow> if is_digit c then parse_digits (digit_val c) cs else None))"

definition py_int :: "string \<Rightarrow> int option" where
  "py_int s =
     (case py_strip s of
        [] \<Rightarrow> None
      | c # cs \<Rightarrow>
          if c = CHR ''-'' then map_option uminus (parse_unsigned cs)
          else if c = CHR ''+'' then parse_unsigned cs
          else parse_unsigned (c # cs))"

text \<open>
  \<^verbatim>\<open>list_frame_keys\<close>: \<^verbatim>\<open>sorted(group.keys(), key=lambda k: int(k))\<close>. Python's
  \<^verbatim>\<open>sorted\<close> is stable, and so is \<open>sort_key\<close>.
\<close>

definition list_frame_keys :: "group \<Rightarrow> error + string list" where
  "list_frame_keys g =
     (case find (\<lambda>k. py_int k = None) (keys g) of
        Some k \<Rightarrow> Inl (KeyValueError k)
      | None \<Rightarrow> Inr (sort_key (\<lambda>k. the (py_int k)) (keys g)))"

text \<open>The slice \<^verbatim>\<open>keys[:nframes]\<close>; a negative bound counts from the end.\<close>

definition slice_to :: "'a list \<Rightarrow> int \<Rightarrow> 'a list" where
  "slice_to xs n =
     (if n < 0 then take (nat (int (length xs) + n)) xs else take (nat n) xs)"

text \<open>
  The saturation sentinel: \<^verbatim>\<open>np.iinfo(img.dtype).max\<close> of uint32, and
  \<^verbatim>\<open>np.where(img == sentinel, 0, img)\<close>.
\<close>

definition sentinel :: u32 where
  "sentinel = 4294967295"

definition replace_sentinel :: "u32 ndarray \<Rightarrow> u32 ndarray" where
  "replace_sentinel img = img\<lparr>data := map (\<lambda>v. if v = sentinel then 0 else v) (data img)\<rparr>"

text \<open>The file name \<^verbatim>\<open>f"frame_{idx:05d}.tiff"\<close>.\<close>

fun decimal :: "nat \<Rightarrow> string" where
  "decimal n =
     (if n < 10 then [char_of (48 + n)]
      else decimal (n div 10) @ [char_of (48 + n mod 10)])"

definition frame_name :: "nat \<Rightarrow> string" where
  "frame_name idx =
     ''frame_'' @ replicate (5 - length (decimal idx)) CHR ''0'' @ decimal idx @ ''.tiff''"

text \<open>
  The loop of \<^verbatim>\<open>eiger_to_tiff\<close> over the selected keys. The result is the list of the
  files written, name and image, and the exception that ended the run, if any: the files
  written before it stay.
\<close>

fun convert_frames ::
  "decompressor \<Rightarrow> group \<Rightarrow> nat \<Rightarrow> string list \<Rightarrow> (string \<times> u32 ndarray) list \<times> error option"
where
  "convert_frames decompress grp idx [] = ([], None)"
| "convert_frames decompress grp idx (k # ks) =
     (case getitem grp k of
        None \<Rightarrow> ([], Some (GroupNotFound k))
      | Some frame_group \<Rightarrow>
          (case get_frame_array decompress frame_group of
             Inl e \<Rightarrow> ([], Some e)
           | Inr img \<Rightarrow>
               (let rest = convert_frames decompress grp (Suc idx) ks
                in ((frame_name idx, replace_sentinel img) # fst rest, snd rest))))"

definition eiger_to_tiff ::
  "decompressor \<Rightarrow> group \<Rightarrow> string \<Rightarrow> int option \<Rightarrow> (string \<times> u32 ndarray) list \<times> error option"
where
  "eiger_to_tiff decompress f group_name nframes =
     (if \<not> contains f group_name then ([], Some (GroupNotFound group_name))
      else
        (case getitem f group_name of
           Some (Group grp) \<Rightarrow>
             (case list_frame_keys grp of
                Inl e \<Rightarrow> ([], Some e)
              | Inr sorted_keys \<Rightarrow>
                  convert_frames decompress grp 0
                    (case nframes of None \<Rightarrow> sorted_keys | Some n \<Rightarrow> slice_to sorted_keys n))
         | _ \<Rightarrow> ([], Some NotAGroup)))"

text \<open>
  Indexing for statements about arrays: \<^verbatim>\<open>arr[r, c]\<close> of a two-dimensional array in
  row-major order, and the 32-bit word at index \<open>i\<close> of a byte buffer.
\<close>

definition item2 :: "'a ndarray \<Rightarrow> nat \<Rightarrow> nat \<Rightarrow> 'a" where
  "item2 arr r c = data arr ! (r * nat (shape arr ! 1) + c)"

definition buffer_word :: "bytes \<Rightarrow> nat \<Rightarrow> u32" where
  "buffer_word buf i =
     le_u32 (buf ! (4 * i)) (buf ! (4 * i + 1)) (buf ! (4 * i + 2)) (buf ! (4 * i + 3))"

subsection \<open>Example files\<close>

text \<open>
  A decompression service that returns its input, and payload groups with the five
  fields, for the concrete instances below.
\<close>

definition identity_decompress :: decompressor where
  "identity_decompress raw ct es = Some raw"

definition example_payload :: "dval \<Rightarrow> 64 word \<Rightarrow> bytes \<Rightarrow> group" where
  "example_payload shp es raw =
     [(''data'', Dataset (DBytes raw)), (''shape'', Dataset shp),
      (''dtype'', Dataset (DStr ''<u4'')), (''elem_size'', Dataset (DInt es)),
      (''compression_type'', Dataset (DStr ''bslz4''))]"

definition multi_channel_frame :: group where
  "multi_channel_frame =
     [(''difference'', Group (example_payload (DIntArr [1, 2]) 4 [1, 0, 0, 0, 255, 255, 255, 255])),
      (''threshold_1'', Group [])]"

definition unsupported_frame :: group where
  "unsupported_frame = [(''difference'', Dataset (DInt 1)), (''threshold_1'', Group [])]"

definition overflow_frame :: group where
  "overflow_frame =
     example_payload (DIntArr [9223372036854775807, 9223372036854775807]) 4 [7, 0, 0, 0]"

text \<open>
  The frame keys the claims are about: non-empty strings of decimal digits, and the
  number such a string denotes.
\<close>

definition is_decimal :: "string \<Rightarrow> bool" where
  "is_decimal k = (k \<noteq> [] \<and> list_all is_digit k)"

definition decimal_value :: "string \<Rightarrow> int" where
  "decimal_value k = foldl (\<lambda>acc c. 10 * acc + digit_val c) 0 k"

text \<open>
  What one pass of the loop of \<^verbatim>\<open>eiger_to_tiff\<close> decodes for the key \<open>k\<close>:
  \<^verbatim>\<open>get_frame_array(group[k])\<close>.
\<close>

definition decode_key :: "decompressor \<Rightarrow> group \<Rightarrow> string \<Rightarrow> error + u32 ndarray" where
  "decode_key decompress grp k =
     (case getitem grp k of
        None \<Rightarrow> Inl (GroupNotFound k)
      | Some frame_group \<Rightarrow> get_frame_array decompress frame_group)"

definition example_frames :: group where
  "example_frames =
     [(''10'', Group (example_payload (DIntArr [1, 1]) 4 [10, 0, 0, 0])),
      (''2'', Group (example_payload (DIntArr [1, 1]) 4 [255, 255, 255, 255])),
      (''1'', Group (example_payload (DIntArr [1, 1]) 4 [1, 0, 0, 0]))]"

definition example_file :: group where
  "example_file = [(''data'', Group example_frames)]"

text \<open>The same file with an element size of 2 in frame 2, and a file with a key of 4301 digits.\<close>

definition broken_frames :: group where
  "broken_frames =
     [(''10'', Group (example_payload (DIntArr [1, 1]) 4 [10, 0, 0, 0])),
      (''2'', Group (example_payload (DIntArr [1, 1]) 2 [255, 255, 255, 255])),
      (''1'', Group (example_payload (DIntArr [1, 1]) 4 [1, 0, 0, 0]))]"

definition broken_file :: group where
  "broken_file = [(''data'', Group broken_frames)]"

definition long_key :: string where
  "long_key = replicate 4301 CHR ''1''"

definition long_key_file :: group where
  "long_key_file =
     [(''data'', Group [(long_key, Group (example_payload (DIntArr [1, 1]) 4 [1, 0, 0, 0]))])]"

section \<open>Properties\<close>

subsection \<open>Payload locator\<close>

text \<open>
  Claim C2. The payload locator returns the child \<^verbatim>\<open>difference\<close> exactly when that
  child exists, is a group and holds the five required fields; otherwise the frame group
  itself exactly when it holds the five fields; otherwise it fails with the error that
  carries the list of the names present in the frame group. The three cases exclude each
  other and cover every frame group.
\<close>

theorem select_payload_group_cases:
  fixes g :: group
  defines "multi \<equiv> \<lambda>d. contains g ''difference'' \<and> getitem g ''difference'' = Some (Group d)
                        \<and> has_required_keys d"
  shows "(\<forall>d. multi d \<longrightarrow> select_payload_group g = Inr d)
       \<and> (\<not> (\<exists>d. multi d) \<and> has_required_keys g \<longrightarrow> select_payload_group g = Inr g)
       \<and> (\<not> (\<exists>d. multi d) \<and> \<not> has_required_keys g
            \<longrightarrow> select_payload_group g = Inl (LayoutError (map fst g)))"
proof (cases "\<exists>d. contains g ''difference'' \<and> getitem g ''difference'' = Some (Group d)")
  case False
  then have "\<not> (\<exists>d. multi d)"
    by (auto simp: multi_def)
  moreover from False have "select_payload_group g = flattened_layout g"
    by (auto simp: select_payload_group_def split: option.splits node.splits)
  ultimately show ?thesis
    by (simp add: flattened_layout_def keys_def)
next
  case True
  then obtain d where d: "contains g ''difference''" "getitem g ''difference'' = Some (Group d)"
    by blast
  then have m: "multi d' \<longleftrightarrow> d' = d \<and> has_required_keys d" for d'
    by (auto simp: multi_def)
  from d have "select_payload_group g =
      (if has_required_keys d then Inr d else flattened_layout g)"
    by (simp add: select_payload_group_def)
  with m show ?thesis
    by (simp add: flattened_layout_def keys_def)
qed

lemma example_has_required_keys: "has_required_keys (example_payload shp es raw)"
  by (simp add: example_payload_def contains_def keys_def has_required_keys_def
      REQUIRED_KEYS_def)

lemma select_example_payload:
  "select_payload_group (example_payload shp es raw) = Inr (example_payload shp es raw)"
  by (simp add: select_payload_group_def flattened_layout_def example_has_required_keys)
    (simp add: example_payload_def contains_def keys_def)

lemma read_example_payload:
  "read_payload (example_payload (DIntArr xs) es raw) =
     Inr \<lparr>raw_data = raw, shape_meta = map sint xs, dtype_meta = ''<u4'',
          elem_size = sint es, compression_type = ''bslz4''\<rparr>"
  by (simp add: read_payload_def example_payload_def getitem_def decode_ascii_ignore_def)

theorem select_payload_group_cases_witness:
  "select_payload_group multi_channel_frame
     = Inr (example_payload (DIntArr [1, 2]) 4 [1, 0, 0, 0, 255, 255, 255, 255])
   \<and> select_payload_group (example_payload (DInt 2) 4 [])
     = Inr (example_payload (DInt 2) 4 [])
   \<and> select_payload_group unsupported_frame
     = Inl (LayoutError [''difference'', ''threshold_1''])"
proof -
  let ?d = "example_payload (DIntArr [1, 2]) 4 [1, 0, 0, 0, 255, 255, 255, 255]"
  let ?flat = "example_payload (DInt 2) 4 []"
  have "contains multi_channel_frame ''difference''
      \<and> getitem multi_channel_frame ''difference'' = Some (Group ?d)
      \<and> has_required_keys ?d"
    by (simp add: multi_channel_frame_def contains_def keys_def getitem_def
        example_has_required_keys)
  with select_payload_group_cases [of multi_channel_frame]
  have 1: "select_payload_group multi_channel_frame = Inr ?d"
    by blast
  have "\<not> contains ?flat ''difference''"
    by (simp add: example_payload_def contains_def keys_def)
  with select_payload_group_cases [of ?flat] example_has_required_keys [of "DInt 2" 4 "[]"]
  have 2: "select_payload_group ?flat = Inr ?flat"
    by blast
  have "getitem unsupported_frame ''difference'' = Some (Dataset (DInt 1))"
    and "\<not> has_required_keys unsupported_frame"
    and "map fst unsupported_frame = [''difference'', ''threshold_1'']"
    by (simp_all add: unsupported_frame_def getitem_def has_required_keys_def
        REQUIRED_KEYS_def contains_def keys_def)
  with select_payload_group_cases [of unsupported_frame]
  have 3: "select_payload_group unsupported_frame
             = Inl (LayoutError [''difference'', ''threshold_1''])"
    by simp
  from 1 2 3 show ?thesis by simp
qed

subsection \<open>Frame decoder\<close>

lemma get_frame_array_decode:
  "select_payload_group fg = Inr pg \<Longrightarrow> read_payload pg = Inr p \<Longrightarrow>
   get_frame_array decompress (Group fg) = decode_payload decompress p"
  by simp

text \<open>
  Claim C3. A payload whose declared element size is not 4 is rejected: decoding fails
  with the error that carries the declared element size, the expected value 4 and the
  dtype label of the file, whatever the shape, the data and the decompression service
  are. No array is returned.
\<close>

theorem elem_size_mismatch_rejected:
  assumes "select_payload_group fg = Inr pg" and "read_payload pg = Inr p"
    and "elem_size p \<noteq> 4"
  shows "get_frame_array decompress (Group fg) =
           Inl (ElemSizeError (elem_size p) 4 (dtype_meta p))"
  using assms by (simp add: decode_payload_def uint32_itemsize_def)

theorem elem_size_mismatch_rejected_witness:
  "select_payload_group (example_payload (DIntArr [1, 2]) 2 [1, 0, 0, 0, 255, 255, 255, 255])
     = Inr (example_payload (DIntArr [1, 2]) 2 [1, 0, 0, 0, 255, 255, 255, 255])
   \<and> read_payload (example_payload (DIntArr [1, 2]) 2 [1, 0, 0, 0, 255, 255, 255, 255])
     = Inr \<lparr>raw_data = [1, 0, 0, 0, 255, 255, 255, 255], shape_meta = [1, 2],
            dtype_meta = ''<u4'', elem_size = 2, compression_type = ''bslz4''\<rparr>
   \<and> get_frame_array identity_decompress
        (Group (example_payload (DIntArr [1, 2]) 2 [1, 0, 0, 0, 255, 255, 255, 255]))
     = Inl (ElemSizeError 2 4 ''<u4'')"
proof -
  let ?fg = "example_payload (DIntArr [1, 2]) 2 [1, 0, 0, 0, 255, 255, 255, 255]"
  let ?p = "\<lparr>raw_data = [1, 0, 0, 0, 255, 255, 255, 255], shape_meta = [1, 2],
            dtype_meta = ''<u4'', elem_size = 2, compression_type = ''bslz4''\<rparr>"
  have s: "select_payload_group ?fg = Inr ?fg" by (rule select_example_payload)
  have r: "read_payload ?fg = Inr ?p" by (simp add: read_example_payload)
  have e: "elem_size ?p \<noteq> 4" by simp
  from elem_size_mismatch_rejected [OF s r e, of identity_decompress] s r
  show ?thesis by simp
qed

text \<open>
  Claim C4. With element size 4 and a buffer from the decompression service, the size
  check compares the length of the buffer with \<^verbatim>\<open>int(np.prod(shape)) * 4\<close>, and
  \<^verbatim>\<open>np.prod\<close> multiplies in 64-bit integers. For the shape
  (9223372036854775807, 9223372036854775807) the product wraps around to 1, a buffer of
  4 bytes passes the check although rows * columns * 4 is not 4, and the frame fails
  only in \<^verbatim>\<open>reshape\<close>, with NumPy's error: it reports the array size and the shape,
  not the length of the buffer and the expected byte count.
\<close>

theorem size_check_wraps_around:
  "get_frame_array identity_decompress (Group overflow_frame) =
     Inl (ReshapeError 1 [9223372036854775807, 9223372036854775807])"
  by (simp add: overflow_frame_def select_example_payload read_example_payload
      decode_payload_def uint32_itemsize_def identity_decompress_def np_prod_def
      wrap_int64_def np_frombuffer_u32_def np_reshape_def NPY_MAXDIMS_def NPY_MAX_INTP_def)

lemma known_size_Some:
  "known_size s shp = Some k \<Longrightarrow> k = s * prod_list (filter (\<lambda>d. 0 \<le> d) shp)"
  by (induction s shp rule: known_size.induct) (auto split: if_splits)

lemma prod_list_infer:
  "prod_list (map (\<lambda>d. if d < 0 then q else d) shp) =
     q ^ length (filter (\<lambda>d. d < 0) shp) * prod_list (filter (\<lambda>d. 0 \<le> d) shp)"
  for q :: int
  by (induction shp) auto

lemma prod_list_nonneg_int: "\<forall>d\<in>set ds. 0 \<le> d \<Longrightarrow> 0 \<le> prod_list ds" for ds :: "int list"
  by (induction ds) auto

lemma filter_all: "\<forall>d\<in>set ds. P d \<Longrightarrow> filter P ds = ds"
  by (induction ds) auto

lemma np_reshape_Inr:
  assumes "np_reshape xs shp = Inr arr"
  shows "data arr = xs"
    and "length (shape arr) = length shp"
    and "\<forall>d\<in>set (shape arr). 0 \<le> d"
    and "prod_list (shape arr) = int (length xs)"
    and "(\<forall>d\<in>set shp. 0 \<le> d) \<Longrightarrow> shape arr = shp"
proof -
  from assms obtain k where k: "known_size 1 shp = Some k"
    and le1: "length (filter (\<lambda>d. d < 0) shp) \<le> 1"
    by (auto simp: np_reshape_def Let_def split: if_splits option.splits)
  have kprod: "k = prod_list (filter (\<lambda>d. 0 \<le> d) shp)"
    using known_size_Some [OF k] by simp
  have knn: "0 \<le> k"
    unfolding kprod by (rule prod_list_nonneg_int) simp
  show "data arr = xs" "length (shape arr) = length shp"
    using assms k by (auto simp: np_reshape_def Let_def split: if_splits)
  show "\<forall>d\<in>set (shape arr). 0 \<le> d"
  proof (cases "list_ex (\<lambda>d. d < 0) shp")
    case True
    with assms k have "shape arr = map (\<lambda>d. if d < 0 then int (length xs) div k else d) shp"
      by (auto simp: np_reshape_def Let_def split: if_splits)
    moreover have "0 \<le> int (length xs) div k"
      using knn by (simp add: pos_imp_zdiv_nonneg_iff div_int_pos_iff)
    ultimately show ?thesis by auto
  next
    case False
    with assms k have "shape arr = shp"
      by (auto simp: np_reshape_def Let_def split: if_splits)
    with False show ?thesis by (auto simp: list_ex_iff not_less)
  qed
  show "prod_list (shape arr) = int (length xs)"
  proof (cases "list_ex (\<lambda>d. d < 0) shp")
    case True
    with assms k have s: "shape arr = map (\<lambda>d. if d < 0 then int (length xs) div k else d) shp"
      and k0: "k \<noteq> 0" and m: "int (length xs) mod k = 0"
      by (auto simp: np_reshape_def Let_def split: if_splits)
    from True have "filter (\<lambda>d. d < 0) shp \<noteq> []"
      by (auto simp: list_ex_iff filter_empty_conv)
    with le1 have "length (filter (\<lambda>d. d < 0) shp) = 1"
      by (cases "filter (\<lambda>d. d < 0) shp") auto
    then have "prod_list (shape arr) = (int (length xs) div k) * k"
      unfolding s prod_list_infer kprod by simp
    with m show ?thesis by (simp add: mod_eq_0_iff_dvd)
  next
    case False
    then have nn: "\<forall>d\<in>set shp. 0 \<le> d"
      by (auto simp: list_ex_iff not_less)
    from False assms k have "shape arr = shp" "int (length xs) = k"
      by (auto simp: np_reshape_def Let_def split: if_splits)
    then show ?thesis by (simp add: kprod filter_all [OF nn])
  qed
  show "shape arr = shp" if "\<forall>d\<in>set shp. 0 \<le> d"
  proof -
    from that have "\<not> list_ex (\<lambda>d. d < 0) shp"
      by (auto simp: list_ex_iff)
    with assms k show ?thesis
      by (auto simp: np_reshape_def Let_def split: if_splits)
  qed
qed

lemma length_u32_words: "length (u32_words buf) = length buf div 4"
  by (induction buf rule: u32_words.induct) auto

lemma u32_words_nth:
  "i < length buf div 4 \<Longrightarrow>
   u32_words buf ! i =
     le_u32 (buf ! (4 * i)) (buf ! (4 * i + 1)) (buf ! (4 * i + 2)) (buf ! (4 * i + 3))"
proof (induction buf arbitrary: i rule: u32_words.induct)
  case (1 b0 b1 b2 b3 rest)
  show ?case
  proof (cases i)
    case 0
    then show ?thesis by simp
  next
    case (Suc j)
    with "1.prems" have "j < length rest div 4" by simp
    from "1.IH" [OF this] Suc show ?thesis
      by (simp add: numeral_eq_Suc)
  qed
qed simp_all


lemma decode_payload_Inr:
  assumes "decode_payload decompress p = Inr arr"
  obtains buf where "elem_size p = 4"
    and "decompress (raw_data p) (compression_type p) 4 = Some buf"
    and "int (length buf) = np_prod (shape_meta p) * 4"
    and "length buf mod 4 = 0"
    and "np_reshape (u32_words buf) (shape_meta p) = Inr arr"
  using assms
  by (auto simp: decode_payload_def uint32_itemsize_def Let_def np_frombuffer_u32_def
      split: if_splits option.splits sum.splits)

lemma read_payload_shape:
  "read_payload pg = Inr p \<Longrightarrow>
   \<exists>sv. getitem pg ''shape'' = Some (Dataset sv) \<and> read_shape sv = Inr (shape_meta p)"
  by (auto simp: read_payload_def split: option.splits node.splits dval.splits sum.splits)

text \<open>
  What a successful decode returns, whatever the shape dataset holds: the elements are
  the 32-bit little-endian words of the decompressed buffer in order, len(buf) / 4 of
  them; the result has as many dimensions as the shape has entries, all non-negative,
  with the number of elements as their product; for a shape (rows, columns) of
  non-negative integers it is rows by columns in row-major order.
\<close>

lemma decoded_frame_layout:
  assumes "select_payload_group fg = Inr pg" and "read_payload pg = Inr p"
    and "get_frame_array decompress (Group fg) = Inr arr"
  shows "(\<exists>sv. getitem pg ''shape'' = Some (Dataset sv) \<and> read_shape sv = Inr (shape_meta p))
       \<and> (\<exists>buf. decompress (raw_data p) (compression_type p) 4 = Some buf
              \<and> length buf = 4 * length (data arr)
              \<and> (\<forall>i < length (data arr). data arr ! i = buffer_word buf i)
              \<and> (\<forall>rows cols r c. shape_meta p = [rows, cols] \<and> 0 \<le> rows \<and> 0 \<le> cols
                     \<and> r < nat rows \<and> c < nat cols
                   \<longrightarrow> item2 arr r c = buffer_word buf (r * nat cols + c)))
       \<and> length (shape arr) = length (shape_meta p)
       \<and> (\<forall>d \<in> set (shape arr). 0 \<le> d)
       \<and> prod_list (shape arr) = int (length (data arr))
       \<and> (\<forall>rows cols. shape_meta p = [rows, cols] \<and> 0 \<le> rows \<and> 0 \<le> cols
             \<longrightarrow> shape arr = [rows, cols] \<and> int (length (data arr)) = rows * cols)"
proof -
  from assms have "decode_payload decompress p = Inr arr" by simp
  then obtain buf where es: "elem_size p = 4"
    and dec: "decompress (raw_data p) (compression_type p) 4 = Some buf"
    and m4: "length buf mod 4 = 0"
    and rs: "np_reshape (u32_words buf) (shape_meta p) = Inr arr"
    by (rule decode_payload_Inr)
  note r = np_reshape_Inr [OF rs]
  have len: "length (data arr) = length buf div 4"
    by (simp add: r(1) length_u32_words)
  with m4 have len4: "length buf = 4 * length (data arr)"
    by auto
  have nth: "data arr ! i = buffer_word buf i" if "i < length (data arr)" for i
    using that by (simp add: r(1) len u32_words_nth buffer_word_def length_u32_words)
  have pair: "shape arr = [rows, cols] \<and> int (length (data arr)) = rows * cols"
    if "shape_meta p = [rows, cols]" "0 \<le> rows" "0 \<le> cols" for rows cols
  proof -
    from that have "shape arr = shape_meta p" by (intro r(5)) simp
    with that have "shape arr = [rows, cols]" by simp
    moreover from this r(4) r(1) have "int (length (data arr)) = rows * cols" by simp
    ultimately show ?thesis by simp
  qed
  have item: "item2 arr r c = buffer_word buf (r * nat cols + c)"
    if "shape_meta p = [rows, cols]" "0 \<le> rows" "0 \<le> cols" "r < nat rows" "c < nat cols"
    for rows cols r c
  proof -
    from pair [OF that(1-3)] have s: "shape arr = [rows, cols]"
      and n: "int (length (data arr)) = rows * cols" by simp_all
    from that have "r * nat cols + c < Suc r * nat cols"
      by simp
    also from that have "\<dots> \<le> nat rows * nat cols"
      by (intro mult_le_mono1) simp
    also have "\<dots> = length (data arr)"
      using n that by (simp add: nat_mult_distrib [symmetric])
    finally show ?thesis
      by (simp add: item2_def s nth)
  qed
  have E: "\<exists>buf. decompress (raw_data p) (compression_type p) 4 = Some buf
              \<and> length buf = 4 * length (data arr)
              \<and> (\<forall>i < length (data arr). data arr ! i = buffer_word buf i)
              \<and> (\<forall>rows cols r c. shape_meta p = [rows, cols] \<and> 0 \<le> rows \<and> 0 \<le> cols
                     \<and> r < nat rows \<and> c < nat cols
                   \<longrightarrow> item2 arr r c = buffer_word buf (r * nat cols + c))"
  proof (intro exI [of _ buf] conjI allI impI)
    show "decompress (raw_data p) (compression_type p) 4 = Some buf" by (rule dec)
    show "length buf = 4 * length (data arr)" by (rule len4)
    show "data arr ! i = buffer_word buf i" if "i < length (data arr)" for i
      using that by (rule nth)
    show "item2 arr r c = buffer_word buf (r * nat cols + c)"
      if "shape_meta p = [rows, cols] \<and> 0 \<le> rows \<and> 0 \<le> cols \<and> r < nat rows \<and> c < nat cols"
      for rows cols r c
    proof -
      from that have a: "shape_meta p = [rows, cols]" "0 \<le> rows" "0 \<le> cols"
        "r < nat rows" "c < nat cols" by simp_all
      show ?thesis by (rule item [OF a])
    qed
  qed
  have P: "\<forall>rows cols. shape_meta p = [rows, cols] \<and> 0 \<le> rows \<and> 0 \<le> cols
             \<longrightarrow> shape arr = [rows, cols] \<and> int (length (data arr)) = rows * cols"
  proof (intro allI impI)
    fix rows cols
    assume "shape_meta p = [rows, cols] \<and> 0 \<le> rows \<and> 0 \<le> cols"
    then have a: "shape_meta p = [rows, cols]" "0 \<le> rows" "0 \<le> cols" by simp_all
    show "shape arr = [rows, cols] \<and> int (length (data arr)) = rows * cols"
      by (rule pair [OF a])
  qed
  have N: "prod_list (shape arr) = int (length (data arr))"
    using r(4) r(1) by simp
  from read_payload_shape [OF assms(2)] E r(2) r(3) N P show ?thesis
    by (intro conjI)
qed


lemma read_example_scalar:
  "read_payload (example_payload (DInt x) es raw) =
     Inr \<lparr>raw_data = raw, shape_meta = [sint x], dtype_meta = ''<u4'',
          elem_size = sint es, compression_type = ''bslz4''\<rparr>"
  by (simp add: read_payload_def example_payload_def getitem_def decode_ascii_ignore_def)

lemmas decode_eval = decode_payload_def uint32_itemsize_def identity_decompress_def
  np_prod_def wrap_int64_def np_frombuffer_u32_def np_reshape_def NPY_MAXDIMS_def
  NPY_MAX_INTP_def le_u32_def uint32_name_def

text \<open>
  Claim C5. The claim has the shape read as a pair (rows, columns) and the result
  two-dimensional, as the docstrings of \<^verbatim>\<open>_read_shape\<close> ("a (ny, nx) tuple of ints")
  and of \<^verbatim>\<open>get_frame_array\<close> ("a 2D NumPy array") have it. The code does not hold to
  it: \<^verbatim>\<open>np.atleast_1d\<close> turns a scalar shape dataset 2 into the tuple (2,), nothing
  checks the number of entries, and with a buffer of 8 bytes the frame decodes to a
  one-dimensional array of two elements.
\<close>

theorem scalar_shape_decodes_1d:
  "read_payload (example_payload (DInt 2) 4 [1, 0, 0, 0, 255, 255, 255, 255])
     = Inr \<lparr>raw_data = [1, 0, 0, 0, 255, 255, 255, 255], shape_meta = [2],
            dtype_meta = ''<u4'', elem_size = 4, compression_type = ''bslz4''\<rparr>
   \<and> get_frame_array identity_decompress
        (Group (example_payload (DInt 2) 4 [1, 0, 0, 0, 255, 255, 255, 255]))
     = Inr \<lparr>shape = [2], data = [1, 4294967295]\<rparr>"
  by (simp add: select_example_payload read_example_scalar decode_eval)

subsection \<open>Batch converter\<close>

lemma convert_frames_length:
  "length (fst (convert_frames d grp idx ks)) \<le> length ks"
  by (induction ks arbitrary: idx) (auto simp: Let_def split: option.splits sum.splits)

lemma convert_frames_complete:
  "snd (convert_frames d grp idx ks) = None \<Longrightarrow>
   length (fst (convert_frames d grp idx ks)) = length ks"
  by (induction ks arbitrary: idx) (auto simp: Let_def split: option.splits sum.splits)









lemma digit_not_space: "is_digit c \<Longrightarrow> \<not> py_isspace c"
  by (auto simp: is_digit_def py_isspace_def)

lemma digit_not_sign: "is_digit c \<Longrightarrow> c \<noteq> CHR ''-'' \<and> c \<noteq> CHR ''+''"
  by (auto simp: is_digit_def)

lemma py_strip_decimal:
  assumes "is_decimal k"
  shows "py_strip k = k"
proof -
  from assms obtain c cs where k: "k = c # cs" and c: "is_digit c"
    by (cases k) (auto simp: is_decimal_def)
  then have 1: "dropWhile py_isspace k = k"
    by (simp add: digit_not_space)
  from assms have "rev k \<noteq> []" "is_digit (hd (rev k))"
    by (auto simp: is_decimal_def list_all_iff hd_rev)
  then have "dropWhile py_isspace (rev k) = rev k"
    by (cases "rev k") (auto simp: digit_not_space)
  with 1 show ?thesis by (simp add: py_strip_def)
qed

lemma parse_digits_decimal:
  "list_all is_digit cs \<Longrightarrow>
   parse_digits acc cs = Some (foldl (\<lambda>acc c. 10 * acc + digit_val c) acc cs)"
  by (induction acc cs rule: parse_digits.induct) auto

lemma filter_digits_decimal: "list_all is_digit k \<Longrightarrow> filter is_digit k = k"
  by (induction k) auto

lemma py_int_decimal:
  assumes "is_decimal k" and "length k \<le> 4300"
  shows "py_int k = Some (decimal_value k)"
proof -
  from assms obtain c cs where k: "k = c # cs" and c: "is_digit c" and cs: "list_all is_digit cs"
    by (cases k) (auto simp: is_decimal_def)
  have "py_strip k = c # cs"
    using py_strip_decimal [OF assms(1)] k by simp
  then have "py_int k = parse_unsigned (c # cs)"
    using digit_not_sign [OF c] by (simp add: py_int_def)
  also have "\<dots> = parse_digits (digit_val c) cs"
    using c cs assms(2) filter_digits_decimal [of k]
    by (simp add: parse_unsigned_def MAX_STR_DIGITS_def k)
  also have "\<dots> = Some (decimal_value k)"
    by (simp add: parse_digits_decimal [OF cs] decimal_value_def k)
  finally show ?thesis .
qed

lemma py_int_too_long:
  assumes "list_all is_digit k" and "4300 < length k"
  shows "py_int k = None"
proof -
  from assms have d: "is_decimal k"
    by (auto simp: is_decimal_def)
  then obtain c cs where k: "k = c # cs" and c: "is_digit c"
    by (cases k) (auto simp: is_decimal_def)
  have "py_strip k = c # cs"
    using py_strip_decimal [OF d] k by simp
  then have "py_int k = parse_unsigned k"
    using digit_not_sign [OF c] by (simp add: py_int_def k)
  also have "\<dots> = None"
    using assms by (simp add: parse_unsigned_def MAX_STR_DIGITS_def filter_digits_decimal)
  finally show ?thesis .
qed

lemma insort_key_cong_set:
  "f x = g x \<Longrightarrow> \<forall>y\<in>set ys. f y = g y \<Longrightarrow> insort_key f x ys = insort_key g x ys"
  by (induction ys) auto

lemma sort_key_cong_set:
  "\<forall>x\<in>set xs. f x = g x \<Longrightarrow> sort_key f xs = sort_key g xs"
proof (induction xs)
  case Nil
  show ?case by simp
next
  case (Cons x xs)
  then have "sort_key f xs = sort_key g xs" by simp
  moreover from Cons.prems
  have "insort_key f x (sort_key g xs) = insort_key g x (sort_key g xs)"
    by (intro insort_key_cong_set) simp_all
  ultimately show ?case by simp
qed

lemma list_frame_keys_decimal:
  assumes "\<forall>k\<in>set (keys grp). is_decimal k \<and> length k \<le> 4300"
  shows "list_frame_keys grp = Inr (sort_key decimal_value (keys grp))"
proof -
  from assms have "find (\<lambda>k. py_int k = None) (keys grp) = None"
    by (auto simp: find_None_iff py_int_decimal)
  moreover from assms have "sort_key (\<lambda>k. the (py_int k)) (keys grp) = sort_key decimal_value (keys grp)"
    by (intro sort_key_cong_set) (simp add: py_int_decimal)
  ultimately show ?thesis by (simp add: list_frame_keys_def)
qed

text \<open>
  The loop takes the keys from left to right, writes the scrubbed frame of every key up
  to the first one that fails to decode, and ends with the error of that key; it ends
  without an error exactly when every key decodes.
\<close>

lemma convert_frames_takeWhile:
  "convert_frames d grp idx ks =
     (map2 (\<lambda>i k. (frame_name i, replace_sentinel (projr (decode_key d grp k))))
        [idx..<idx + length (takeWhile (\<lambda>k. \<not> isl (decode_key d grp k)) ks)]
        (takeWhile (\<lambda>k. \<not> isl (decode_key d grp k)) ks),
      if length (takeWhile (\<lambda>k. \<not> isl (decode_key d grp k)) ks) = length ks then None
      else Some (projl (decode_key d grp
                   (ks ! length (takeWhile (\<lambda>k. \<not> isl (decode_key d grp k)) ks)))))"
proof (induction ks arbitrary: idx)
  case Nil
  show ?case by simp
next
  case (Cons k ks)
  show ?case
  proof (cases "decode_key d grp k")
    case (Inl e)
    then show ?thesis
      by (auto simp: decode_key_def split: option.splits)
  next
    case (Inr img)
    then obtain frame where f: "getitem grp k = Some frame"
      and g: "get_frame_array d frame = Inr img"
      by (auto simp: decode_key_def split: option.splits)
    let ?good = "takeWhile (\<lambda>k. \<not> isl (decode_key d grp k)) ks"
    have "idx < idx + Suc (length ?good)" by simp
    from upt_conv_Cons [OF this]
    have u: "[idx..<idx + Suc (length ?good)] = idx # [Suc idx..<Suc idx + length ?good]"
      by simp
    show ?thesis
      using Inr f g Cons.IH [of "Suc idx"] u by (simp add: Let_def)
  qed
qed

text \<open>
  Claim C6, as amended. For a group whose keys are decimal strings of at most 4300
  digits, \<^verbatim>\<open>eiger_to_tiff\<close> works through the keys in ascending order of the numbers
  they denote: its list is the stable sort of the keys by numeric value, a permutation of
  the keys, cut to its first \<open>n\<close> entries when a frame limit \<open>n \<ge> 0\<close> is given. It
  writes, under consecutive names, the scrubbed frame of every key of that list up to
  the first key whose frame fails to decode, and ends with the error of that frame, or
  without an error when every frame of the list decodes.
\<close>

theorem frames_processed_in_numeric_order:
  fixes decompress :: decompressor and grp :: group and todo :: "string list"
  defines "good \<equiv> takeWhile (\<lambda>k. \<not> isl (decode_key decompress grp k)) todo"
  assumes "contains f group_name" and "getitem f group_name = Some (Group grp)"
    and "\<forall>k \<in> set (keys grp). is_decimal k \<and> length k \<le> 4300"
    and "nframes = None \<and> todo = sort_key decimal_value (keys grp)
         \<or> (\<exists>n. nframes = Some (int n) \<and> todo = take n (sort_key decimal_value (keys grp)))"
  shows "sorted (map decimal_value (sort_key decimal_value (keys grp)))
       \<and> mset (sort_key decimal_value (keys grp)) = mset (keys grp)
       \<and> eiger_to_tiff decompress f group_name nframes =
           (map2 (\<lambda>i k. (frame_name i, replace_sentinel (projr (decode_key decompress grp k))))
              [0..<length good] good,
            if length good = length todo then None
            else Some (projl (decode_key decompress grp (todo ! length good))))"
proof -
  from assms(5) have "(case nframes of None \<Rightarrow> sort_key decimal_value (keys grp)
      | Some n \<Rightarrow> slice_to (sort_key decimal_value (keys grp)) n) = todo"
    by (auto simp: slice_to_def)
  with assms(2,3) have r: "eiger_to_tiff decompress f group_name nframes
      = convert_frames decompress grp 0 todo"
    by (simp add: eiger_to_tiff_def list_frame_keys_decimal [OF assms(4)])
  have 3: "eiger_to_tiff decompress f group_name nframes =
           (map2 (\<lambda>i k. (frame_name i, replace_sentinel (projr (decode_key decompress grp k))))
              [0..<length good] good,
            if length good = length todo then None
            else Some (projl (decode_key decompress grp (todo ! length good))))"
    unfolding r good_def using convert_frames_takeWhile [of decompress grp 0 todo] by simp
  have 2: "mset (sort_key decimal_value (keys grp)) = mset (keys grp)"
    by simp
  have 1: "sorted (map decimal_value (sort_key decimal_value (keys grp)))"
    by simp
  from 1 2 3 show ?thesis by (intro conjI)
qed

theorem frames_processed_in_numeric_order_witness:
  "contains example_file ''data''
   \<and> getitem example_file ''data'' = Some (Group example_frames)
   \<and> keys example_frames = [''10'', ''2'', ''1'']
   \<and> list_all (\<lambda>k. is_decimal k \<and> length k \<le> 4300) (keys example_frames)
   \<and> sort_key decimal_value (keys example_frames) = [''1'', ''2'', ''10'']
   \<and> eiger_to_tiff identity_decompress example_file ''data'' (Some 2)
       = ([(''frame_00000.tiff'', \<lparr>shape = [1, 1], data = [1]\<rparr>),
           (''frame_00001.tiff'', \<lparr>shape = [1, 1], data = [0]\<rparr>)], None)
   \<and> eiger_to_tiff identity_decompress broken_file ''data'' None
       = ([(''frame_00000.tiff'', \<lparr>shape = [1, 1], data = [1]\<rparr>)],
          Some (ElemSizeError 2 4 ''<u4''))"
proof -
  have c: "contains example_file ''data''"
    and g: "getitem example_file ''data'' = Some (Group example_frames)"
    by (simp_all add: example_file_def contains_def keys_def getitem_def)
  have k: "keys example_frames = [''10'', ''2'', ''1'']"
    by (simp add: example_frames_def keys_def)
  have d: "list_all (\<lambda>k. is_decimal k \<and> length k \<le> 4300) (keys example_frames)"
    unfolding k by code_simp
  then have d': "\<forall>k \<in> set (keys example_frames). is_decimal k \<and> length k \<le> 4300"
    by (simp add: list_all_iff)
  have s: "sort_key decimal_value (keys example_frames) = [''1'', ''2'', ''10'']"
    unfolding k by code_simp
  have n: "Some 2 = None \<and> take 2 (sort_key decimal_value (keys example_frames))
             = sort_key decimal_value (keys example_frames)
         \<or> (\<exists>n. Some 2 = Some (int n) \<and> take 2 (sort_key decimal_value (keys example_frames))
             = take n (sort_key decimal_value (keys example_frames)))"
    by (intro disjI2 exI [of _ 2]) simp
  from frames_processed_in_numeric_order [OF c g d' n, of identity_decompress]
  have "eiger_to_tiff identity_decompress example_file ''data'' (Some 2)
      = (map2 (\<lambda>i k. (frame_name i,
                 replace_sentinel (projr (decode_key identity_decompress example_frames k))))
           [0..<length (takeWhile (\<lambda>k. \<not> isl (decode_key identity_decompress example_frames k))
                          (take 2 (sort_key decimal_value (keys example_frames))))]
           (takeWhile (\<lambda>k. \<not> isl (decode_key identity_decompress example_frames k))
              (take 2 (sort_key decimal_value (keys example_frames)))),
         if length (takeWhile (\<lambda>k. \<not> isl (decode_key identity_decompress example_frames k))
                      (take 2 (sort_key decimal_value (keys example_frames))))
            = length (take 2 (sort_key decimal_value (keys example_frames)))
         then None
         else Some (projl (decode_key identity_decompress example_frames
                 (take 2 (sort_key decimal_value (keys example_frames))
                    ! length (takeWhile (\<lambda>k. \<not> isl (decode_key identity_decompress example_frames k))
                                (take 2 (sort_key decimal_value (keys example_frames))))))))"
    by blast
  also have "\<dots> = ([(''frame_00000.tiff'', \<lparr>shape = [1, 1], data = [1]\<rparr>),
           (''frame_00001.tiff'', \<lparr>shape = [1, 1], data = [0]\<rparr>)], None)"
    by code_simp
  finally have e: "eiger_to_tiff identity_decompress example_file ''data'' (Some 2)
       = ([(''frame_00000.tiff'', \<lparr>shape = [1, 1], data = [1]\<rparr>),
           (''frame_00001.tiff'', \<lparr>shape = [1, 1], data = [0]\<rparr>)], None)" .
  have b: "eiger_to_tiff identity_decompress broken_file ''data'' None
       = ([(''frame_00000.tiff'', \<lparr>shape = [1, 1], data = [1]\<rparr>)],
          Some (ElemSizeError 2 4 ''<u4''))"
    by code_simp
  from c g k d s e b show ?thesis by (intro conjI)
qed

text \<open>
  Claim C6 as stated fails twice. A decimal key of 4301 digits makes \<^verbatim>\<open>int(k)\<close> raise,
  and the run ends before any frame is read. A frame limit of -1 is the slice
  \<^verbatim>\<open>keys[:-1]\<close>: of the three keys 10, 2, 1 the frames of 1 and 2 are written.
\<close>

lemma long_key_digits: "list_all is_digit long_key" "length long_key = 4301"
  by (simp_all add: long_key_def list_all_iff is_digit_def)

theorem frame_keys_counterexample:
  "is_decimal long_key
   \<and> eiger_to_tiff identity_decompress long_key_file ''data'' None
       = ([], Some (KeyValueError long_key))
   \<and> eiger_to_tiff identity_decompress example_file ''data'' (Some (- 1))
       = ([(''frame_00000.tiff'', \<lparr>shape = [1, 1], data = [1]\<rparr>),
           (''frame_00001.tiff'', \<lparr>shape = [1, 1], data = [0]\<rparr>)], None)"
proof -
  have n: "py_int long_key = None"
    by (rule py_int_too_long) (simp_all add: long_key_digits)
  have d: "is_decimal long_key"
    using long_key_digits by (auto simp: is_decimal_def)
  have l: "eiger_to_tiff identity_decompress long_key_file ''data'' None
       = ([], Some (KeyValueError long_key))"
    by (simp add: eiger_to_tiff_def long_key_file_def contains_def keys_def getitem_def
        list_frame_keys_def n)
  have m: "eiger_to_tiff identity_decompress example_file ''data'' (Some (- 1))
       = ([(''frame_00000.tiff'', \<lparr>shape = [1, 1], data = [1]\<rparr>),
           (''frame_00001.tiff'', \<lparr>shape = [1, 1], data = [0]\<rparr>)], None)"
    by code_simp
  from d l m show ?thesis by (intro conjI)
qed

subsection \<open>The size check without overflow\<close>

text \<open>
  Where the number of elements rows * columns fits a signed 64-bit integer, the size check
  of \<^verbatim>\<open>get_frame_array\<close> is exact: the frame decodes if and only if the buffer has
  rows * columns * 4 bytes, and otherwise the error carries the length of the buffer, the
  expected byte count, the shape and the dtype used.
\<close>

lemma wrap_int64_id: "0 \<le> x \<Longrightarrow> x < 2 ^ 63 \<Longrightarrow> wrap_int64 x = x"
  by (simp add: wrap_int64_def)

lemma read_shape_elements:
  "read_shape sv = Inr shp \<Longrightarrow> d \<in> set shp \<Longrightarrow> \<exists>w :: 64 word. d = sint w"
  by (cases sv) auto

lemma read_payload_shape_bound:
  assumes "read_payload pg = Inr p" and "d \<in> set (shape_meta p)"
  shows "d < 2 ^ 63"
proof -
  from assms(1) obtain sv where "read_shape sv = Inr (shape_meta p)"
    using read_payload_shape by blast
  from read_shape_elements [OF this assms(2)] obtain w :: "64 word" where "d = sint w"
    by blast
  then show ?thesis using sint_lt [of w] by simp
qed

lemma size_check_exact:
  assumes "select_payload_group fg = Inr pg" and "read_payload pg = Inr p"
    and "elem_size p = 4"
    and "decompress (raw_data p) (compression_type p) 4 = Some buf"
    and "shape_meta p = [rows, cols]" and "0 \<le> rows" and "0 \<le> cols"
    and "rows * cols < 2 ^ 63"
  shows "get_frame_array decompress (Group fg) =
     (if int (length buf) = rows * cols * 4
        then Inr \<lparr>shape = [rows, cols], data = u32_words buf\<rparr>
      else Inl (DecodedSizeError (int (length buf)) (rows * cols * 4) [rows, cols] ''uint32''))"
proof -
  have nn: "0 \<le> rows * cols" using assms(6,7) by simp
  have p: "np_prod (shape_meta p) = rows * cols"
    by (simp add: np_prod_def assms(5) wrap_int64_id [OF nn assms(8)])
  have rb: "rows < 2 ^ 63"
    using read_payload_shape_bound [OF assms(2), of rows] assms(5) by simp
  show ?thesis
  proof (cases "int (length buf) = rows * cols * 4")
    case False
    with p assms(1-5) show ?thesis
      by (simp add: decode_payload_def uint32_itemsize_def uint32_name_def)
  next
    case True
    then have m: "length buf mod 4 = 0" and l: "int (length buf div 4) = rows * cols"
      by (simp_all add: zdiv_int) presburger
    have k: "known_size 1 [rows, cols] = Some (rows * cols)"
      using assms(6-8) rb by (simp add: NPY_MAX_INTP_def)
    have "np_reshape (u32_words buf) [rows, cols]
            = Inr \<lparr>shape = [rows, cols], data = u32_words buf\<rparr>"
      using assms(6,7) l
      by (simp add: np_reshape_def k NPY_MAXDIMS_def length_u32_words Let_def
          del: known_size.simps)
    with True p m assms(1-5) show ?thesis
      by (simp add: decode_payload_def uint32_itemsize_def np_frombuffer_u32_def)
  qed
qed

end
